theory Spec2Isabelle
  imports Main "HOL-Library.Sublist"
begin

section \<open>JavaScript values, errors and HTTP responses\<close>

text \<open>
  A parsed JSON body is a JavaScript value. An object is the list of its own properties
  (after \<^verbatim>\<open>JSON.parse\<close> every key occurs once). Numbers are kept as integers: the code
  only tests them for truthiness and prints them.
\<close>

datatype jsval =
    JUndefined
  | JNull
  | JBool bool
  | JNum int
  | JStr string
  | JArr "jsval list"
  | JObj "(string \<times> jsval) list"

datatype js_error =
    TypeError string
  | SyntaxError string
  | FetchError string

fun err_message :: "js_error \<Rightarrow> string" where
  "err_message (TypeError m) = m"
| "err_message (SyntaxError m) = m"
| "err_message (FetchError m) = m"

text \<open>JavaScript truthiness, as used by \<^verbatim>\<open>if (v)\<close>, \<^verbatim>\<open>!v\<close> and \<^verbatim>\<open>a && b\<close>.\<close>

fun truthy :: "jsval \<Rightarrow> bool" where
  "truthy JUndefined = False"
| "truthy JNull = False"
| "truthy (JBool b) = b"
| "truthy (JNum n) = (n \<noteq> 0)"
| "truthy (JStr s) = (s \<noteq> [])"
| "truthy (JArr xs) = True"
| "truthy (JObj kvs) = True"

text \<open>
  Property access \<^verbatim>\<open>v.p\<close> for the property names the code reads from a parsed body
  (\<^verbatim>\<open>status\<close>, \<^verbatim>\<open>attestation\<close>, \<^verbatim>\<open>message\<close>, \<^verbatim>\<open>error\<close>): it throws a
  TypeError on \<^verbatim>\<open>undefined\<close> and \<^verbatim>\<open>null\<close>, looks the key up in an object and is
  \<^verbatim>\<open>undefined\<close> on every other value.
\<close>

fun getProp :: "jsval \<Rightarrow> string \<Rightarrow> js_error + jsval" where
  "getProp JUndefined p =
     Inl (TypeError (''Cannot read properties of undefined (reading '' @ p @ '')''))"
| "getProp JNull p =
     Inl (TypeError (''Cannot read properties of null (reading '' @ p @ '')''))"
| "getProp (JObj kvs) p = Inr (case map_of kvs p of None \<Rightarrow> JUndefined | Some v \<Rightarrow> v)"
| "getProp (JBool b) p = Inr JUndefined"
| "getProp (JNum n) p = Inr JUndefined"
| "getProp (JStr s) p = Inr JUndefined"
| "getProp (JArr xs) p = Inr JUndefined"

text \<open>
  Whether converting a value to a string throws, as a template literal \<^verbatim>\<open>`${v}`\<close> does.
  A parsed object is converted by its \<^verbatim>\<open>toString\<close> and \<^verbatim>\<open>valueOf\<close> methods: with an own
  key \<^verbatim>\<open>toString\<close> (never a function after \<^verbatim>\<open>JSON.parse\<close>) the inherited method is
  hidden, \<^verbatim>\<open>valueOf\<close> gives no primitive, and the conversion throws a TypeError. An array
  joins the strings of its elements (\<^verbatim>\<open>null\<close> counts as empty), so it throws when an
  element does.
\<close>

fun toStringThrows :: "jsval \<Rightarrow> bool" where
  "toStringThrows (JObj kvs) = (map_of kvs ''toString'' \<noteq> None)"
| "toStringThrows (JArr xs) = list_ex toStringThrows xs"
| "toStringThrows JUndefined = False"
| "toStringThrows JNull = False"
| "toStringThrows (JBool b) = False"
| "toStringThrows (JNum n) = False"
| "toStringThrows (JStr s) = False"

text \<open>\<^verbatim>\<open>a || b\<close>.\<close>

definition jsOr :: "jsval \<Rightarrow> jsval \<Rightarrow> jsval" where
  "jsOr a b = (if truthy a then a else b)"

text \<open>
  What \<^verbatim>\<open>await fetch(...)\<close> gives when it settles: the promise rejects, or it resolves to
  a response whose \<^verbatim>\<open>ok\<close> and \<^verbatim>\<open>status\<close> are read directly and whose \<^verbatim>\<open>json()\<close>
  either throws (malformed body) or yields the parsed value. Neither file sets a timeout
  on its requests, so a fetch, or the read of a body, may also never settle: the
  environment then answers \<open>None\<close> where a \<open>fetch_result\<close> is expected.
\<close>

datatype body = Malformed js_error | Parsed jsval

datatype fetch_result =
    Rejected js_error
  | Response (ok: bool) (status: nat) (body: body)

section \<open>server.js: pollAttestation\<close>

definition IRIS :: string where
  "IRIS = ''https://iris-api-sandbox.circle.com/v1/attestations''"

definition timeout :: int where
  "timeout = 180000"

definition pollInterval :: int where
  "pollInterval = 3000"

text \<open>One pass through the loop body either executes \<^verbatim>\<open>return json\<close> or falls through.\<close>

datatype step = Return jsval | Continue

text \<open>
  The \<^verbatim>\<open>try\<close> block of one iteration (server.js lines 29-61), once its fetch and the
  read of the body have settled. \<open>Inl\<close> is an exception raised inside the block. Console
  output is not modelled, but the exceptions of the logging statement at lines 41-43 are:
  reading \<^verbatim>\<open>json.status\<close> throws when the body is \<^verbatim>\<open>null\<close>, and building the line
  \<^verbatim>\<open>`... Status: ${json.status}`\<close> throws when the status is truthy and has no string
  conversion.
\<close>

definition pollTry :: "fetch_result \<Rightarrow> js_error + step" where
  "pollTry r =
     (case r of
        Rejected e \<Rightarrow> Inl e
      | Response res_ok res_status res_body \<Rightarrow>
          if \<not> res_ok then Inr Continue
          else
            (case res_body of
               Malformed e \<Rightarrow> Inl e
             | Parsed json \<Rightarrow>
                 (case getProp json ''status'' of
                    Inl e \<Rightarrow> Inl e
                  | Inr json_status \<Rightarrow>
                      if truthy json_status \<and> toStringThrows json_status
                      then Inl (TypeError ''Cannot convert object to primitive value'')
                      else
                        (case getProp json ''attestation'' of
                           Inl e \<Rightarrow> Inl e
                         | Inr attestation \<Rightarrow>
                             if truthy attestation \<and> attestation \<noteq> JStr ''PENDING''
                                \<and> attestation \<noteq> JStr ''pending''
                             then Inr (Return json)
                             else if json_status = JStr ''pending_confirmations''
                             then Inr Continue
                             else if json_status = JStr ''complete''
                             then (if truthy attestation then Inr (Return json)
                                   else Inr Continue)
                             else Inr Continue))))"

text \<open>The \<^verbatim>\<open>catch (e)\<close> clause logs and continues polling.\<close>

definition pollAttempt :: "fetch_result \<Rightarrow> step" where
  "pollAttempt r = (case pollTry r of Inl e \<Rightarrow> Continue | Inr st \<Rightarrow> st)"

text \<open>The message of the \<^verbatim>\<open>Error\<close> thrown at lines 70-73.\<close>

definition timeoutMessage :: "string \<Rightarrow> string" where
  "timeoutMessage hash =
     ''Attestation timeout. The transaction may need more confirmations. '' @
     ''Try checking https://iris-api-sandbox.circle.com/v1/attestations/'' @ hash @
     '' directly.''"

text \<open>\<^verbatim>\<open>Math.floor((Date.now() - start) / 1000)\<close>, used for the log lines only.\<close>

definition elapsedSeconds :: "int \<Rightarrow> int \<Rightarrow> int" where
  "elapsedSeconds start t = (t - start) div 1000"

datatype poll_outcome = Returned jsval | Thrown string

text \<open>
  The environment of one invocation is \<open>iris\<close> and \<open>now\<close>. \<open>iris k\<close> is what the fetch of
  iteration \<open>k\<close> (counted from 0) gives, \<open>None\<close> when that fetch, or the read of the body
  of its ok response, never settles. \<open>now\<close> gives the successive readings of
  \<^verbatim>\<open>Date.now()\<close> in the order the code takes them: reading \<open>0\<close> is \<^verbatim>\<open>start\<close>, iteration
  \<open>k\<close> reads \<open>2 * k + 1\<close> for \<^verbatim>\<open>elapsed\<close> and \<open>2 * k + 2\<close> for the timeout check.

  \<open>attemptAt iris k\<close> is the pass of iteration \<open>k\<close> through the \<^verbatim>\<open>try\<close>/\<^verbatim>\<open>catch\<close>.
\<close>

definition attemptAt :: "(nat \<Rightarrow> fetch_result option) \<Rightarrow> nat \<Rightarrow> step option" where
  "attemptAt iris k = (case iris k of None \<Rightarrow> None | Some r \<Rightarrow> Some (pollAttempt r))"

text \<open>
  The \<^verbatim>\<open>while (true)\<close> loop. The timeout is tested only after the \<^verbatim>\<open>try\<close>/\<^verbatim>\<open>catch\<close>
  (line 68), so an iteration whose await never settles suspends the function for good.
  Having no outcome, by suspension or by looping for ever, is \<open>None\<close>.
\<close>

partial_function (option) pollLoop ::
  "string \<Rightarrow> (nat \<Rightarrow> fetch_result option) \<Rightarrow> (nat \<Rightarrow> int) \<Rightarrow> nat \<Rightarrow> poll_outcome option" where
  "pollLoop hash iris now k =
     (case attemptAt iris k of
        None \<Rightarrow> None
      | Some st \<Rightarrow>
          (case st of
             Return json \<Rightarrow> Some (Returned json)
           | Continue \<Rightarrow>
               if now (2 * k + 2) - now 0 > timeout then Some (Thrown (timeoutMessage hash))
               else pollLoop hash iris now (Suc k)))"

definition pollAttestation ::
  "string \<Rightarrow> (nat \<Rightarrow> fetch_result option) \<Rightarrow> (nat \<Rightarrow> int) \<Rightarrow> poll_outcome option" where
  "pollAttestation hash iris now = pollLoop hash iris now 0"

section \<open>The faucet automation: claimUSDC, processChain, runFaucet\<close>

text \<open>
  The repository holds the automation twice: faucet-automation.js, which repeats the run
  on a timer, and a one-shot variant that exits after one run. \<^verbatim>\<open>claimUSDC\<close> is the
  same in both (up to console decoration); \<^verbatim>\<open>processChain\<close> and \<^verbatim>\<open>runFaucet\<close>
  differ as described below. The unsuffixed names are the one-shot variant's. Wallet
  addresses and chain keys are strings.
\<close>

record chain_config =
  name :: string
  chainId :: string
  token :: string

text \<open>The own properties of the object \<^verbatim>\<open>CHAINS\<close>, in key order.\<close>

definition CHAINS :: "(string \<times> chain_config) list" where
  "CHAINS =
     [(''avalanche_fuji'',
         \<lparr>name = ''Avalanche Fuji Testnet'', chainId = ''43113'', token = ''USDC''\<rparr>),
      (''ethereum_sepolia'',
         \<lparr>name = ''Ethereum Sepolia Testnet'', chainId = ''11155111'', token = ''USDC''\<rparr>),
      (''base_sepolia'',
         \<lparr>name = ''Base Sepolia Testnet'', chainId = ''84532'', token = ''USDC''\<rparr>)]"

text \<open>
  \<^verbatim>\<open>CHAINS[chain]\<close>. \<^verbatim>\<open>CHAINS\<close> is an object literal, so a key that is not its own is
  looked up in \<^verbatim>\<open>Object.prototype\<close>: there the lookup finds a function (the prototype
  itself for \<^verbatim>\<open>__proto__\<close>) instead of \<^verbatim>\<open>undefined\<close>.
\<close>

definition objectPrototypeKeys :: "string list" where
  "objectPrototypeKeys =
     [''constructor'', ''__defineGetter__'', ''__defineSetter__'', ''hasOwnProperty'',
      ''__lookupGetter__'', ''__lookupSetter__'', ''isPrototypeOf'', ''propertyIsEnumerable'',
      ''toString'', ''valueOf'', ''__proto__'', ''toLocaleString'']"

datatype chain_lookup = Profile chain_config | Inherited string | NoChain

definition lookupChain :: "string \<Rightarrow> chain_lookup" where
  "lookupChain chain =
     (case map_of CHAINS chain of
        Some cfg \<Rightarrow> Profile cfg
      | None \<Rightarrow> if chain \<in> set objectPrototypeKeys then Inherited chain else NoChain)"

text \<open>
  The text \<^verbatim>\<open>`${chainConfig.name}`\<close>: reading \<^verbatim>\<open>name\<close> throws on \<^verbatim>\<open>undefined\<close>; an
  inherited function has its own name (\<^verbatim>\<open>Object\<close> for the constructor), the prototype
  has none. \<^verbatim>\<open>chainConfig.chainId\<close> and \<^verbatim>\<open>chainConfig.token\<close> are \<^verbatim>\<open>undefined\<close> on an
  inherited value, and \<^verbatim>\<open>JSON.stringify\<close> leaves such keys out of the body (\<open>None\<close>).
\<close>

fun nameText :: "chain_lookup \<Rightarrow> js_error + string" where
  "nameText (Profile cfg) = Inr (name cfg)"
| "nameText (Inherited key) =
     Inr (if key = ''__proto__'' then ''undefined''
          else if key = ''constructor'' then ''Object''
          else key)"
| "nameText NoChain = Inl (TypeError ''Cannot read properties of undefined (reading name)'')"

fun bodyChainId :: "chain_lookup \<Rightarrow> string option" where
  "bodyChainId (Profile cfg) = Some (chainId cfg)"
| "bodyChainId (Inherited key) = None"
| "bodyChainId NoChain = None"

fun bodyToken :: "chain_lookup \<Rightarrow> string option" where
  "bodyToken (Profile cfg) = Some (token cfg)"
| "bodyToken (Inherited key) = None"
| "bodyToken NoChain = None"

text \<open>
  What a run does to the outside: \<open>Post address chainId token\<close> is one
  \<^verbatim>\<open>fetch(FAUCET_API, {method: 'POST', ...})\<close> with that JSON body, \<open>Delay\<close> a
  \<^verbatim>\<open>setTimeout\<close> pause, \<open>Log\<close> one call of \<^verbatim>\<open>log(...)\<close> with the fields its message
  interpolates (time stamps and durations left out). \<^verbatim>\<open>log\<close> catches its own write
  failures, so it never throws. Console output is not recorded, but an exception raised
  while building its text is.
\<close>

datatype log_entry =
    LogSuccess string string
  | LogFailed jsval string string
  | LogError string string string
  | LogSummary string nat nat
  | LogFinalSummary nat nat
  | LogFatal string
  | LogCycleCompleted

datatype event =
    Post string "string option" "string option"
  | Delay nat
  | Log log_entry

fun isPost :: "event \<Rightarrow> bool" where
  "isPost (Post a c t) = True"
| "isPost (Delay n) = False"
| "isPost (Log l) = False"

text \<open>
  The state threaded through a run: how many fetches have been issued and what has been
  done so far. The faucet is \<open>net\<close>: \<open>net i\<close> is what the \<open>i\<close>-th fetch gives, \<open>None\<close>
  when it, or the read of its body, never settles.
\<close>

record world =
  calls :: nat
  trace :: "event list"

definition emit :: "event \<Rightarrow> world \<Rightarrow> world" where
  "emit e s = s\<lparr>trace := trace s @ [e]\<rparr>"

definition fetchPost ::
  "(nat \<Rightarrow> fetch_result option) \<Rightarrow> string \<Rightarrow> string option \<Rightarrow> string option \<Rightarrow> world
     \<Rightarrow> fetch_result option \<times> world" where
  "fetchPost net a c t s =
     (net (calls s), s\<lparr>calls := Suc (calls s), trace := trace s @ [Post a c t]\<rparr>)"

text \<open>
  How an awaited call ends for its caller: it gives a value, it throws, or it stays
  suspended because an await inside it never settles. No \<^verbatim>\<open>catch\<close> clause sees a
  suspension.
\<close>

datatype 'a completion = Done 'a | Raised js_error | Suspended

text \<open>
  The object \<^verbatim>\<open>claimUSDC\<close> returns, \<^verbatim>\<open>{success, message}\<close> or \<^verbatim>\<open>{success, error}\<close>
  (a key that is not set reads as \<^verbatim>\<open>undefined\<close>), and the entry
  \<^verbatim>\<open>{wallet, ...result}\<close> that \<^verbatim>\<open>processChain\<close> pushes.
\<close>

record claim_result =
  success :: bool
  message :: jsval
  error :: jsval

record claim_entry = claim_result +
  wallet :: string

text \<open>
  The \<^verbatim>\<open>try\<close> block of \<^verbatim>\<open>claimUSDC\<close>. \<^verbatim>\<open>chainConfig\<close> is looked up before the block;
  the first statement of the block reads \<^verbatim>\<open>chainConfig.name\<close>. \<^verbatim>\<open>response.json()\<close> is
  awaited whatever the status. The console lines
  \<^verbatim>\<open>`Success: ${result.message || '...'}`\<close> and \<^verbatim>\<open>`Failed: ${result.error || '...'}`\<close>
  come before the log entry and the \<^verbatim>\<open>return\<close>, and they throw when the value has no
  string conversion.
\<close>

definition claimTry ::
  "(nat \<Rightarrow> fetch_result option) \<Rightarrow> string \<Rightarrow> chain_lookup \<Rightarrow> world
     \<Rightarrow> claim_result completion \<times> world" where
  "claimTry net walletAddress chainConfig s =
     (case nameText chainConfig of
        Inl e \<Rightarrow> (Raised e, s)
      | Inr chain_name \<Rightarrow>
          (case fetchPost net walletAddress (bodyChainId chainConfig) (bodyToken chainConfig) s of
             (None, s1) \<Rightarrow> (Suspended, s1)
           | (Some response, s1) \<Rightarrow>
               (case response of
                  Rejected e \<Rightarrow> (Raised e, s1)
                | Response response_ok response_status response_body \<Rightarrow>
                    (case response_body of
                       Malformed e \<Rightarrow> (Raised e, s1)
                     | Parsed result \<Rightarrow>
                         if response_ok then
                           (case getProp result ''message'' of
                              Inl e \<Rightarrow> (Raised e, s1)
                            | Inr result_message \<Rightarrow>
                                if toStringThrows
                                     (jsOr result_message (JStr ''USDC claimed successfully''))
                                then (Raised (TypeError ''Cannot convert object to primitive value''),
                                      s1)
                                else
                                  (Done \<lparr>success = True, message = result_message,
                                          error = JUndefined\<rparr>,
                                   emit (Log (LogSuccess walletAddress chain_name)) s1))
                         else
                           (case getProp result ''error'' of
                              Inl e \<Rightarrow> (Raised e, s1)
                            | Inr result_error \<Rightarrow>
                                if toStringThrows (jsOr result_error (JStr ''Unknown error''))
                                then (Raised (TypeError ''Cannot convert object to primitive value''),
                                      s1)
                                else
                                  (Done \<lparr>success = False, message = JUndefined,
                                          error = result_error\<rparr>,
                                   emit (Log (LogFailed
                                                (jsOr result_error (JStr ''Unknown error''))
                                                walletAddress chain_name)) s1))))))"

text \<open>
  \<^verbatim>\<open>claimUSDC\<close> with its \<^verbatim>\<open>catch (error)\<close> clause. The clause builds its log line from
  \<^verbatim>\<open>chainConfig.name\<close> again, so with no chain profile it throws in turn, and that
  exception leaves the function.
\<close>

definition claimUSDC ::
  "(nat \<Rightarrow> fetch_result option) \<Rightarrow> string \<Rightarrow> string \<Rightarrow> world
     \<Rightarrow> claim_result completion \<times> world" where
  "claimUSDC net walletAddress chain s =
     (let chainConfig = lookupChain chain in
      case claimTry net walletAddress chainConfig s of
        (Done result, s1) \<Rightarrow> (Done result, s1)
      | (Suspended, s1) \<Rightarrow> (Suspended, s1)
      | (Raised err, s1) \<Rightarrow>
          (case nameText chainConfig of
             Inl e \<Rightarrow> (Raised e, s1)
           | Inr chain_name \<Rightarrow>
               (Done \<lparr>success = False, message = JUndefined, error = JStr (err_message err)\<rparr>,
                emit (Log (LogError walletAddress chain_name (err_message err))) s1)))"

text \<open>The loop \<^verbatim>\<open>for (const wallet of wallets)\<close> of \<^verbatim>\<open>processChain\<close>.\<close>

fun claimWallets ::
  "(nat \<Rightarrow> fetch_result option) \<Rightarrow> string \<Rightarrow> string list \<Rightarrow> claim_entry list \<Rightarrow> world
     \<Rightarrow> claim_entry list completion \<times> world" where
  "claimWallets net chain [] results s = (Done results, s)"
| "claimWallets net chain (w # rest) results s =
     (case claimUSDC net w chain s of
        (Raised e, s1) \<Rightarrow> (Raised e, s1)
      | (Suspended, s1) \<Rightarrow> (Suspended, s1)
      | (Done result, s1) \<Rightarrow>
          claimWallets net chain rest
            (results @ [\<lparr>success = success result, message = message result,
                          error = error result, wallet = w\<rparr>])
            (emit (Delay 2000) s1))"

text \<open>
  \<^verbatim>\<open>processChain(chain, wallets)\<close> of the one-shot variant. The wallet list is a list of
  addresses or absent (\<open>None\<close>, \<^verbatim>\<open>undefined\<close>). The early \<^verbatim>\<open>return;\<close> gives
  \<^verbatim>\<open>undefined\<close> (\<open>None\<close>), the end of the function \<^verbatim>\<open>return results\<close>. Both paths
  read \<^verbatim>\<open>CHAINS[chain].name\<close> first.
\<close>

definition processChain ::
  "(nat \<Rightarrow> fetch_result option) \<Rightarrow> string \<Rightarrow> string list option \<Rightarrow> world
     \<Rightarrow> claim_entry list option completion \<times> world" where
  "processChain net chain wallets s =
     (case nameText (lookupChain chain) of
        Inl e \<Rightarrow> (Raised e, s)
      | Inr chain_name \<Rightarrow>
          if wallets = None \<or> wallets = Some [] then (Done None, s)
          else
            (case claimWallets net chain (the wallets) [] s of
               (Raised e, s1) \<Rightarrow> (Raised e, s1)
             | (Suspended, s1) \<Rightarrow> (Suspended, s1)
             | (Done results, s1) \<Rightarrow>
                 (let successful = length (filter success results);
                      failed = length (filter (\<lambda>r. \<not> success r) results)
                  in (Done (Some results),
                      emit (Log (LogSummary chain_name successful failed)) s1))))"

text \<open>The loop \<^verbatim>\<open>for (const chain of Object.keys(CHAINS))\<close> filling \<^verbatim>\<open>allResults\<close>.\<close>

fun processChains ::
  "(nat \<Rightarrow> fetch_result option) \<Rightarrow> (string \<Rightarrow> string list option) \<Rightarrow> string list
     \<Rightarrow> (string \<times> claim_entry list option) list \<Rightarrow> world
     \<Rightarrow> (string \<times> claim_entry list option) list completion \<times> world" where
  "processChains net wallets [] allResults s = (Done allResults, s)"
| "processChains net wallets (chain # rest) allResults s =
     (case processChain net chain (wallets chain) s of
        (Raised e, s1) \<Rightarrow> (Raised e, s1)
      | (Suspended, s1) \<Rightarrow> (Suspended, s1)
      | (Done results, s1) \<Rightarrow>
          processChains net wallets rest (allResults @ [(chain, results)]) s1)"

text \<open>
  The loop over \<^verbatim>\<open>Object.values(allResults)\<close> that adds up the totals;
  \<^verbatim>\<open>chainResults.filter\<close> throws a TypeError when \<^verbatim>\<open>chainResults\<close> is \<^verbatim>\<open>undefined\<close>.
\<close>

fun totalStats :: "claim_entry list option list \<Rightarrow> nat \<Rightarrow> nat \<Rightarrow> js_error + nat \<times> nat" where
  "totalStats [] totalSuccess totalFailed = Inr (totalSuccess, totalFailed)"
| "totalStats (None # rest) totalSuccess totalFailed =
     Inl (TypeError ''Cannot read properties of undefined (reading filter)'')"
| "totalStats (Some chainResults # rest) totalSuccess totalFailed =
     totalStats rest (totalSuccess + length (filter success chainResults))
       (totalFailed + length (filter (\<lambda>r. \<not> success r) chainResults))"

text \<open>
  How a run ends for its caller: the promise resolves, \<^verbatim>\<open>process.exit(code)\<close> ends the
  process, or the run stays suspended.
\<close>

datatype run_end = Resolved | Exited nat | NeverEnds

text \<open>
  \<^verbatim>\<open>runFaucet\<close> of the one-shot variant. \<open>loaded\<close> is what \<^verbatim>\<open>await loadWallets()\<close>
  gives: an exception, or the wallet lists by chain key.
\<close>

definition runTry ::
  "(nat \<Rightarrow> fetch_result option) \<Rightarrow> js_error + (string \<Rightarrow> string list option) \<Rightarrow> world
     \<Rightarrow> unit completion \<times> world" where
  "runTry net loaded s =
     (case loaded of
        Inl e \<Rightarrow> (Raised e, s)
      | Inr wallets \<Rightarrow>
          (case processChains net wallets (map fst CHAINS) [] s of
             (Raised e, s1) \<Rightarrow> (Raised e, s1)
           | (Suspended, s1) \<Rightarrow> (Suspended, s1)
           | (Done allResults, s1) \<Rightarrow>
               (case totalStats (map snd allResults) 0 0 of
                  Inl e \<Rightarrow> (Raised e, s1)
                | Inr (totalSuccess, totalFailed) \<Rightarrow>
                    (Done (), emit (Log (LogFinalSummary totalSuccess totalFailed)) s1))))"

definition runFaucet ::
  "(nat \<Rightarrow> fetch_result option) \<Rightarrow> js_error + (string \<Rightarrow> string list option) \<Rightarrow> world
     \<Rightarrow> run_end \<times> world" where
  "runFaucet net loaded s =
     (case runTry net loaded s of
        (Done u, s1) \<Rightarrow> (Resolved, s1)
      | (Suspended, s1) \<Rightarrow> (NeverEnds, s1)
      | (Raised err, s1) \<Rightarrow> (Exited 1, emit (Log (LogFatal (err_message err))) s1))"

text \<open>
  \<^verbatim>\<open>runFaucet\<close> of faucet-automation.js. Its \<^verbatim>\<open>processChain\<close> is the one above without
  the final \<^verbatim>\<open>return results\<close>, and its \<^verbatim>\<open>try\<close> block only runs the chains. Its
  \<^verbatim>\<open>catch\<close> clause logs the error; the function then goes on to log the completed cycle
  and returns normally.
\<close>

definition runTry_sched ::
  "(nat \<Rightarrow> fetch_result option) \<Rightarrow> js_error + (string \<Rightarrow> string list option) \<Rightarrow> world
     \<Rightarrow> unit completion \<times> world" where
  "runTry_sched net loaded s =
     (case loaded of
        Inl e \<Rightarrow> (Raised e, s)
      | Inr wallets \<Rightarrow>
          (case processChains net wallets (map fst CHAINS) [] s of
             (Raised e, s1) \<Rightarrow> (Raised e, s1)
           | (Suspended, s1) \<Rightarrow> (Suspended, s1)
           | (Done allResults, s1) \<Rightarrow> (Done (), s1)))"

definition runFaucet_sched ::
  "(nat \<Rightarrow> fetch_result option) \<Rightarrow> js_error + (string \<Rightarrow> string list option) \<Rightarrow> world
     \<Rightarrow> run_end \<times> world" where
  "runFaucet_sched net loaded s =
     (case runTry_sched net loaded s of
        (Suspended, s1) \<Rightarrow> (NeverEnds, s1)
      | (Done u, s1) \<Rightarrow> (Resolved, emit (Log LogCycleCompleted) s1)
      | (Raised err, s1) \<Rightarrow>
          (Resolved, emit (Log LogCycleCompleted) (emit (Log (LogFatal (err_message err))) s1)))"

section \<open>Vocabulary of the specification\<close>

text \<open>
  The specification speaks of a sentinel compared case-insensitively, of transient remote
  errors and of an error text that includes the elapsed seconds. These notions are not in
  the code; they are defined here from the specification's words, to be compared with the
  code.
\<close>

definition toLowerCase :: "string \<Rightarrow> string" where
  "toLowerCase s =
     map (\<lambda>c. case map_of (zip ''ABCDEFGHIJKLMNOPQRSTUVWXYZ'' ''abcdefghijklmnopqrstuvwxyz'') c of
                 None \<Rightarrow> c
               | Some l \<Rightarrow> l) s"

definition spec_pending :: "jsval \<Rightarrow> bool" where
  "spec_pending v = (case v of JStr s \<Rightarrow> toLowerCase s = ''pending'' | _ \<Rightarrow> False)"

text \<open>Network failure, non-success HTTP response, malformed body.\<close>

definition transient :: "fetch_result \<Rightarrow> bool" where
  "transient r =
     (case r of
        Rejected e \<Rightarrow> True
      | Response res_ok res_status res_body \<Rightarrow>
          (if res_ok then (case res_body of Malformed e \<Rightarrow> True | Parsed json \<Rightarrow> False)
           else True))"

text \<open>\<^verbatim>\<open>String(n)\<close> for a natural number.\<close>

fun showNat :: "nat \<Rightarrow> string" where
  "showNat n =
     (if n < 10 then [''0123456789'' ! n]
      else showNat (n div 10) @ [''0123456789'' ! (n mod 10)])"

declare showNat.simps [simp del]

subsection \<open>Notions for the faucet properties\<close>

text \<open>
  The faucet accepted a claim: the fetch resolved, the response is ok, and its body parses
  to a value whose \<^verbatim>\<open>message\<close> can be read and printed.
\<close>

definition accepted :: "fetch_result \<Rightarrow> bool" where
  "accepted r =
     (case r of
        Rejected e \<Rightarrow> False
      | Response response_ok response_status response_body \<Rightarrow>
          response_ok \<and>
          (case response_body of
             Malformed e \<Rightarrow> False
           | Parsed result \<Rightarrow>
               (case getProp result ''message'' of
                  Inl e \<Rightarrow> False
                | Inr result_message \<Rightarrow> \<not> toStringThrows result_message)))"

text \<open>The requests for a list of wallets on one chain, in list order.\<close>

definition postsFor :: "chain_config \<Rightarrow> string list \<Rightarrow> event list" where
  "postsFor cfg ws = map (\<lambda>w. Post w (Some (chainId cfg)) (Some (token cfg))) ws"

text \<open>The wallets a chain is processed for: none when the list is absent.\<close>

definition walletList :: "string list option \<Rightarrow> string list" where
  "walletList wallets = (case wallets of None \<Rightarrow> [] | Some ws \<Rightarrow> ws)"

section \<open>Example responses and clocks\<close>

definition completePending :: jsval where
  "completePending = JObj [(''status'', JStr ''complete''), (''attestation'', JStr ''pending'')]"

definition completePendingRemote :: "nat \<Rightarrow> fetch_result option" where
  "completePendingRemote k = Some (Response True 200 (Parsed completePending))"

definition mixedCasePending :: jsval where
  "mixedCasePending = JObj [(''attestation'', JStr ''Pending'')]"

definition emptyAttestation :: jsval where
  "emptyAttestation = JObj [(''status'', JStr ''complete''), (''attestation'', JStr [])]"

definition unprintableStatus :: jsval where
  "unprintableStatus =
     JObj [(''status'', JObj [(''toString'', JNum 1)]), (''attestation'', JStr ''0x5e7a'')]"

definition signedBody :: jsval where
  "signedBody = JObj [(''attestation'', JStr ''0x5e7a''), (''status'', JStr ''complete'')]"

definition pendingBody :: jsval where
  "pendingBody =
     JObj [(''attestation'', JStr ''PENDING''), (''status'', JStr ''pending_confirmations'')]"

definition signedRemote :: "nat \<Rightarrow> fetch_result option" where
  "signedRemote k = Some (Response True 200 (Parsed signedBody))"

definition pendingRemote :: "nat \<Rightarrow> fetch_result option" where
  "pendingRemote k = Some (Response True 200 (Parsed pendingBody))"


text \<open>
  Failures of the three kinds between polls that see "PENDING", seven attempts in all,
  then a signed attestation.
\<close>

definition flakyAnswers :: "fetch_result list" where
  "flakyAnswers =
     [Rejected (FetchError ''socket hang up''),
      Response True 200 (Parsed pendingBody),
      Response False 404 (Parsed (JObj [(''error'', JStr ''not found'')])),
      Response True 200 (Malformed (SyntaxError ''Unexpected end of JSON input'')),
      Response True 200 (Parsed pendingBody),
      Response False 503 (Malformed (SyntaxError ''Unexpected token <'')),
      Rejected (FetchError ''getaddrinfo ENOTFOUND'')]"

definition flakyRemote :: "nat \<Rightarrow> fetch_result option" where
  "flakyRemote k =
     (if k < length flakyAnswers then Some (flakyAnswers ! k)
      else Some (Response True 200 (Parsed signedBody)))"

text \<open>A clock on which every iteration takes the 3 seconds of the poll interval.\<close>

definition steadyClock :: "nat \<Rightarrow> int" where
  "steadyClock i = 1500 * int i"


text \<open>Faucet answers, wallet lists and the initial state of a run.\<close>

definition world0 :: world where
  "world0 = \<lparr>calls = 0, trace = []\<rparr>"

definition faucetOk :: fetch_result where
  "faucetOk = Response True 200 (Parsed (JObj [(''message'', JStr ''claimed'')]))"

definition faucetRejects :: fetch_result where
  "faucetRejects = Response False 429 (Parsed (JObj [(''error'', JStr ''rate limited'')]))"

definition faucetOddMessage :: fetch_result where
  "faucetOddMessage =
     Response True 200 (Parsed (JObj [(''message'', JObj [(''toString'', JNum 1)])]))"

definition alwaysOk :: "nat \<Rightarrow> fetch_result option" where
  "alwaysOk i = Some faucetOk"

definition secondFails :: "nat \<Rightarrow> fetch_result option" where
  "secondFails i = (if i = 1 then Some faucetRejects else Some faucetOk)"

text \<open>The first request is rejected, the second fails in the network, the rest succeed.\<close>

definition firstTwoFail :: "nat \<Rightarrow> fetch_result option" where
  "firstTwoFail i =
     (if i = 0 then Some faucetRejects
      else if i = 1 then Some (Rejected (FetchError ''socket hang up''))
      else Some faucetOk)"

definition oddMessageNet :: "nat \<Rightarrow> fetch_result option" where
  "oddMessageNet i = Some faucetOddMessage"

definition threeWallets :: "string list" where
  "threeWallets = [''0xA1'', ''0xB2'', ''0xC3'']"

definition oneEmptyChain :: "string \<Rightarrow> string list option" where
  "oneEmptyChain chain =
     (if chain = ''avalanche_fuji'' then Some [''0xA1'']
      else if chain = ''ethereum_sepolia'' then Some []
      else if chain = ''base_sepolia'' then Some [''0xC3'']
      else None)"

definition fourWallets :: "string \<Rightarrow> string list option" where
  "fourWallets chain =
     (if chain = ''avalanche_fuji'' then Some [''0xA1'', ''0xA2'']
      else if chain = ''ethereum_sepolia'' then Some [''0xB1'']
      else if chain = ''base_sepolia'' then Some [''0xC1'']
      else None)"

text \<open>A remote that cannot be reached at all.\<close>

definition deadRemote :: "nat \<Rightarrow> fetch_result option" where
  "deadRemote k = Some (Rejected (FetchError ''connect ECONNREFUSED''))"

section \<open>Properties of pollAttestation\<close>

subsection \<open>Unfolding the loop\<close>


lemma pollLoop_Return:
  "attemptAt iris k = Some (Return json) \<Longrightarrow> pollLoop hash iris now k = Some (Returned json)"
  by (subst pollLoop.simps) simp

lemma pollLoop_timeout:
  "attemptAt iris k = Some Continue \<Longrightarrow> timeout < now (2 * k + 2) - now 0 \<Longrightarrow>
     pollLoop hash iris now k = Some (Thrown (timeoutMessage hash))"
  by (subst pollLoop.simps) simp

lemma pollLoop_next:
  "attemptAt iris k = Some Continue \<Longrightarrow> \<not> timeout < now (2 * k + 2) - now 0 \<Longrightarrow>
     pollLoop hash iris now k = pollLoop hash iris now (Suc k)"
  by (subst pollLoop.simps) simp

lemma attemptAt_Some:
  "iris k = Some r \<Longrightarrow> attemptAt iris k = Some (pollAttempt r)"
  by (simp add: attemptAt_def)


lemma pollAttempt_transient:
  "transient r \<Longrightarrow> pollAttempt r = Continue"
  by (auto simp: transient_def pollAttempt_def pollTry_def
           split: fetch_result.splits body.splits if_splits)

text \<open>What the \<^verbatim>\<open>try\<close> block does with the parsed body of an ok response.\<close>

lemma pollAttempt_ready:
  assumes "getProp json ''status'' = Inr json_status"
    and "\<not> (truthy json_status \<and> toStringThrows json_status)"
    and "getProp json ''attestation'' = Inr attestation"
    and "truthy attestation" "attestation \<noteq> JStr ''PENDING''" "attestation \<noteq> JStr ''pending''"
  shows "pollAttempt (Response True code (Parsed json)) = Return json"
  using assms by (simp add: pollAttempt_def pollTry_def)

lemma pollAttempt_not_ready:
  assumes "getProp json ''status'' = Inr json_status"
    and "getProp json ''attestation'' = Inr attestation"
    and "\<not> truthy attestation \<or>
         (attestation = JStr ''PENDING'' \<or> attestation = JStr ''pending'') \<and>
         json_status \<noteq> JStr ''complete''"
  shows "pollAttempt (Response True code (Parsed json)) = Continue"
  using assms by (auto simp: pollAttempt_def pollTry_def)


lemma pollLoop_skip:
  assumes "\<And>k. m \<le> k \<Longrightarrow> k < m + n \<Longrightarrow>
             attemptAt iris k = Some Continue \<and> now (2 * k + 2) - now 0 \<le> timeout"
  shows "pollLoop hash iris now m = pollLoop hash iris now (m + n)"
  using assms
proof (induction n arbitrary: m)
  case 0
  then show ?case by simp
next
  case (Suc n)
  have "pollLoop hash iris now m = pollLoop hash iris now (Suc m)"
    using Suc.prems[of m] by (intro pollLoop_next) auto
  also have "\<dots> = pollLoop hash iris now (Suc m + n)"
    using Suc.prems by (intro Suc.IH) auto
  finally show ?case by simp
qed

lemma pollLoop_throws:
  assumes "\<And>j. j \<le> n \<Longrightarrow> attemptAt iris j = Some Continue"
    and "\<And>j. j < n \<Longrightarrow> now (2 * j + 2) - now 0 \<le> timeout"
    and "timeout < now (2 * n + 2) - now 0"
  shows "pollLoop hash iris now 0 = Some (Thrown (timeoutMessage hash))"
proof -
  have "pollLoop hash iris now 0 = pollLoop hash iris now (0 + n)"
    using assms(1,2) by (intro pollLoop_skip) auto
  also have "\<dots> = Some (Thrown (timeoutMessage hash))"
    using assms(1)[of n] assms(3) by (simp add: pollLoop_timeout)
  finally show ?thesis .
qed

lemma pollLoop_returns:
  assumes "\<And>j. j < n \<Longrightarrow> attemptAt iris j = Some Continue"
    and "\<And>j. j < n \<Longrightarrow> now (2 * j + 2) - now 0 \<le> timeout"
    and "attemptAt iris n = Some (Return json)"
  shows "pollLoop hash iris now 0 = Some (Returned json)"
proof -
  have "pollLoop hash iris now 0 = pollLoop hash iris now (0 + n)"
    using assms(1,2) by (intro pollLoop_skip) auto
  also have "\<dots> = Some (Returned json)"
    using assms(3) by (simp add: pollLoop_Return)
  finally show ?thesis .
qed

text \<open>Every result of the loop comes from a first iteration that returns or times out.\<close>

lemma pollLoop_Some_cases:
  assumes "pollLoop hash iris now k = Some y"
  shows "\<exists>n\<ge>k. (\<forall>j. k \<le> j \<and> j < n \<longrightarrow>
                 attemptAt iris j = Some Continue \<and> now (2 * j + 2) - now 0 \<le> timeout) \<and>
           ((\<exists>json. attemptAt iris n = Some (Return json) \<and> y = Returned json) \<or>
            (attemptAt iris n = Some Continue \<and> timeout < now (2 * n + 2) - now 0 \<and>
             y = Thrown (timeoutMessage hash)))"
  using assms
proof (induction rule: pollLoop.raw_induct[rotated 1, consumes 1])
  case (1 pollLoop' hash iris now k y)
  from 1(2) obtain st where st: "attemptAt iris k = Some st"
    by (cases "attemptAt iris k") simp_all
  show ?case
  proof (cases st)
    case (Return json)
    with 1(2) st have "y = Returned json" by simp
    with Return st show ?thesis by (intro exI[of _ k]) auto
  next
    case Continue
    show ?thesis
    proof (cases "timeout < now (2 * k + 2) - now 0")
      case True
      with Continue st 1(2) have "y = Thrown (timeoutMessage hash)" by simp
      with Continue st True show ?thesis by (intro exI[of _ k]) auto
    next
      case False
      with Continue st 1(2) have "pollLoop' hash iris now (Suc k) = Some y" by simp
      from 1(1)[OF this] obtain n where n: "Suc k \<le> n"
        "\<forall>j. Suc k \<le> j \<and> j < n \<longrightarrow>
           attemptAt iris j = Some Continue \<and> now (2 * j + 2) - now 0 \<le> timeout"
        "(\<exists>json. attemptAt iris n = Some (Return json) \<and> y = Returned json) \<or>
         (attemptAt iris n = Some Continue \<and> timeout < now (2 * n + 2) - now 0 \<and>
          y = Thrown (timeoutMessage hash))"
        by blast
      have "\<forall>j. k \<le> j \<and> j < n \<longrightarrow>
              attemptAt iris j = Some Continue \<and> now (2 * j + 2) - now 0 \<le> timeout"
      proof (intro allI impI)
        fix j assume "k \<le> j \<and> j < n"
        then consider "j = k" | "Suc k \<le> j \<and> j < n" by force
        then show "attemptAt iris j = Some Continue \<and> now (2 * j + 2) - now 0 \<le> timeout"
          using Continue st False n(2) by cases auto
      qed
      with n(1,3) show ?thesis by (intro exI[of _ n]) auto
    qed
  qed
qed



subsection \<open>The claims about pollAttestation\<close>

text \<open>
  C1 (code defect). The claim: the status field never by itself makes the poll return;
  when the attestation is absent or a pending sentinel, polling continues even when the
  status is "complete". The code evaluated at the body
  \<^verbatim>\<open>{status: "complete", attestation: "pending"}\<close>: the first test (line 46) rejects the
  sentinel, and the status branch (lines 54-58) then returns the body all the same.
\<close>

theorem pollAttestation_complete_pending_returns:
  "pollAttempt (Response True 200 (Parsed completePending)) = Return completePending \<and>
   attemptAt completePendingRemote k = Some (Return completePending) \<and>
   pollAttestation hash completePendingRemote now = Some (Returned completePending) \<and>
   getProp completePending ''attestation'' = Inr (JStr ''pending'')"
proof -
  have a: "pollAttempt (Response True 200 (Parsed completePending)) = Return completePending"
    by (simp add: completePending_def pollAttempt_def pollTry_def)
  then have b: "attemptAt completePendingRemote k = Some (Return completePending)" for k
    by (simp add: attemptAt_def completePendingRemote_def)
  have "pollLoop hash completePendingRemote now 0 = Some (Returned completePending)"
    using b by (rule pollLoop_Return)
  moreover have "getProp completePending ''attestation'' = Inr (JStr ''pending'')"
    by (simp add: completePending_def)
  ultimately show ?thesis using a b by (simp add: pollAttestation_def)
qed

text \<open>
  C2, as stated, fails in three ways. The code compares the attestation with the two
  literals "PENDING" and "pending" only, so "Pending" (pending under case-insensitive
  comparison) is returned as ready. An attestation field that is present but falsy, such
  as the empty string, is not the sentinel, yet polling continues. And a status that has
  no string conversion makes the logging statement throw inside the \<^verbatim>\<open>try\<close> block, so
  polling continues although the attestation is ready.
\<close>

theorem pollAttempt_mixed_case_counterexample:
  "spec_pending (JStr ''Pending'') \<and>
   getProp mixedCasePending ''attestation'' = Inr (JStr ''Pending'') \<and>
   pollAttempt (Response True 200 (Parsed mixedCasePending)) = Return mixedCasePending \<and>
   \<not> spec_pending (JStr []) \<and>
   getProp emptyAttestation ''attestation'' = Inr (JStr []) \<and>
   pollAttempt (Response True 200 (Parsed emptyAttestation)) = Continue \<and>
   \<not> spec_pending (JStr ''0x5e7a'') \<and>
   getProp unprintableStatus ''attestation'' = Inr (JStr ''0x5e7a'') \<and>
   pollAttempt (Response True 200 (Parsed unprintableStatus)) = Continue"
  by (simp add: spec_pending_def toLowerCase_def mixedCasePending_def emptyAttestation_def
        unprintableStatus_def pollAttempt_def pollTry_def)

text \<open>
  C2 (amended). For a successful response with a parsed, non-null body whose status, when
  truthy, has a string conversion: when the attestation value is truthy and is neither
  exactly "PENDING" nor exactly "pending", the attempt returns the body and the loop
  returns it on that attempt; when the value is absent or falsy, whatever the status, and
  when it is one of the two literals and the status is not "complete", the attempt
  continues polling.
\<close>

theorem pollAttempt_attestation_ready:
  assumes "getProp json ''status'' = Inr json_status"
    and "\<not> (truthy json_status \<and> toStringThrows json_status)"
    and "getProp json ''attestation'' = Inr attestation"
  shows "(truthy attestation \<and> attestation \<noteq> JStr ''PENDING'' \<and> attestation \<noteq> JStr ''pending''
            \<longrightarrow> pollAttempt (Response True code (Parsed json)) = Return json \<and>
                (iris k = Some (Response True code (Parsed json))
                   \<longrightarrow> pollLoop hash iris now k = Some (Returned json))) \<and>
         (\<not> truthy attestation \<or>
          (attestation = JStr ''PENDING'' \<or> attestation = JStr ''pending'') \<and>
          json_status \<noteq> JStr ''complete''
            \<longrightarrow> pollAttempt (Response True code (Parsed json)) = Continue)"
proof (intro conjI impI)
  assume r: "truthy attestation \<and> attestation \<noteq> JStr ''PENDING'' \<and> attestation \<noteq> JStr ''pending''"
  with assms show a: "pollAttempt (Response True code (Parsed json)) = Return json"
    by (intro pollAttempt_ready) auto
  assume "iris k = Some (Response True code (Parsed json))"
  with a have "attemptAt iris k = Some (Return json)"
    by (simp add: attemptAt_def)
  then show "pollLoop hash iris now k = Some (Returned json)"
    by (rule pollLoop_Return)
next
  assume "\<not> truthy attestation \<or>
          (attestation = JStr ''PENDING'' \<or> attestation = JStr ''pending'') \<and>
          json_status \<noteq> JStr ''complete''"
  with assms(1,3) show "pollAttempt (Response True code (Parsed json)) = Continue"
    by (rule pollAttempt_not_ready)
qed

theorem pollAttempt_attestation_ready_witness:
  "pollAttempt (Response True 200 (Parsed signedBody)) = Return signedBody \<and>
   pollLoop ''0xabc'' signedRemote steadyClock 0 = Some (Returned signedBody) \<and>
   pollAttempt (Response True 200 (Parsed pendingBody)) = Continue \<and>
   pollAttempt (Response True 200 (Parsed emptyAttestation)) = Continue"
proof -
  have s: "getProp signedBody ''status'' = Inr (JStr ''complete'')"
    "\<not> (truthy (JStr ''complete'') \<and> toStringThrows (JStr ''complete''))"
    "getProp signedBody ''attestation'' = Inr (JStr ''0x5e7a'')"
    by (simp_all add: signedBody_def)
  have p: "getProp pendingBody ''status'' = Inr (JStr ''pending_confirmations'')"
    "\<not> (truthy (JStr ''pending_confirmations'') \<and> toStringThrows (JStr ''pending_confirmations''))"
    "getProp pendingBody ''attestation'' = Inr (JStr ''PENDING'')"
    by (simp_all add: pendingBody_def)
  have e: "getProp emptyAttestation ''status'' = Inr (JStr ''complete'')"
    "\<not> (truthy (JStr ''complete'') \<and> toStringThrows (JStr ''complete''))"
    "getProp emptyAttestation ''attestation'' = Inr (JStr [])"
    by (simp_all add: emptyAttestation_def)
  from pollAttempt_attestation_ready[OF s, of 200 signedRemote 0 "''0xabc''" steadyClock]
  have 1: "pollAttempt (Response True 200 (Parsed signedBody)) = Return signedBody"
    and 2: "pollLoop ''0xabc'' signedRemote steadyClock 0 = Some (Returned signedBody)"
    by (simp_all add: signedRemote_def)
  from pollAttempt_attestation_ready[OF p, of 200]
  have 3: "pollAttempt (Response True 200 (Parsed pendingBody)) = Continue"
    by simp
  from pollAttempt_attestation_ready[OF e, of 200]
  have 4: "pollAttempt (Response True 200 (Parsed emptyAttestation)) = Continue"
    by simp
  from 1 2 3 4 show ?thesis by simp
qed

text \<open>
  C3, as stated, fails in one part: the error carries no elapsed seconds. With a remote
  that always answers "PENDING" and a clock of 3 seconds per iteration, the poll throws at
  the check of iteration 60, 183 seconds after the start (181 seconds at the top of that
  iteration); neither number occurs in the message.
\<close>

theorem pollAttestation_timeout_message_counterexample:
  "pollAttestation ''0xabc'' pendingRemote steadyClock = Some (Thrown (timeoutMessage ''0xabc'')) \<and>
   showNat (nat (elapsedSeconds (steadyClock 0) (steadyClock 122))) = ''183'' \<and>
   \<not> sublist ''183'' (timeoutMessage ''0xabc'') \<and>
   showNat (nat (elapsedSeconds (steadyClock 0) (steadyClock 121))) = ''181'' \<and>
   \<not> sublist ''181'' (timeoutMessage ''0xabc'')"
proof -
  have c: "attemptAt pendingRemote j = Some Continue" for j
    by (simp add: attemptAt_def pendingRemote_def pendingBody_def pollAttempt_def pollTry_def)
  have "pollLoop ''0xabc'' pendingRemote steadyClock 0 = Some (Thrown (timeoutMessage ''0xabc''))"
  proof (rule pollLoop_throws[where n = 60])
    show "attemptAt pendingRemote j = Some Continue" for j by (rule c)
    show "steadyClock (2 * j + 2) - steadyClock 0 \<le> timeout" if "j < 60" for j
      using that by (simp add: steadyClock_def timeout_def)
    show "timeout < steadyClock (2 * 60 + 2) - steadyClock 0"
      by (simp add: steadyClock_def timeout_def)
  qed
  then have 1: "pollAttestation ''0xabc'' pendingRemote steadyClock =
      Some (Thrown (timeoutMessage ''0xabc''))"
    by (simp add: pollAttestation_def)
  have 2: "showNat (nat (elapsedSeconds (steadyClock 0) (steadyClock 122))) = ''183''"
    by (simp add: elapsedSeconds_def steadyClock_def showNat.simps)
  have 3: "showNat (nat (elapsedSeconds (steadyClock 0) (steadyClock 121))) = ''181''"
    by (simp add: elapsedSeconds_def steadyClock_def showNat.simps)
  have 4: "\<not> sublist ''183'' (timeoutMessage ''0xabc'')"
    by code_simp
  have 5: "\<not> sublist ''181'' (timeoutMessage ''0xabc'')"
    by code_simp
  from 1 2 3 4 5 show ?thesis by simp
qed

text \<open>
  C3 (amended). pollAttestation throws only at a timeout check that reads more than
  180000 ms since the start, after every iteration so far has fallen through and every
  earlier check has read at most 180000 ms; and when no iteration returns up to the first
  such check, it does throw there. The message names the identifier inside the URL to
  check and says that the transaction may need more confirmations; it carries no elapsed
  time.
\<close>

theorem pollAttestation_timeout:
  "(pollAttestation hash iris now = Some (Thrown msg) \<longrightarrow>
      msg = ''Attestation timeout. The transaction may need more confirmations. '' @
            ''Try checking https://iris-api-sandbox.circle.com/v1/attestations/'' @ hash @
            '' directly.'' \<and>
      (\<exists>n. 180000 < now (2 * n + 2) - now 0 \<and>
           (\<forall>j\<le>n. attemptAt iris j = Some Continue) \<and>
           (\<forall>j<n. now (2 * j + 2) - now 0 \<le> 180000))) \<and>
   ((\<forall>j\<le>m. attemptAt iris j = Some Continue) \<and>
    (\<forall>j<m. now (2 * j + 2) - now 0 \<le> 180000) \<and>
    180000 < now (2 * m + 2) - now 0 \<longrightarrow>
      pollAttestation hash iris now = Some (Thrown (timeoutMessage hash)))"
proof (intro conjI impI)
  assume "pollAttestation hash iris now = Some (Thrown msg)"
  then have "pollLoop hash iris now 0 = Some (Thrown msg)"
    by (simp add: pollAttestation_def)
  from pollLoop_Some_cases[OF this] obtain n where
    before: "\<forall>j. 0 \<le> j \<and> j < n \<longrightarrow>
               attemptAt iris j = Some Continue \<and> now (2 * j + 2) - now 0 \<le> timeout"
    and at: "attemptAt iris n = Some Continue" "timeout < now (2 * n + 2) - now 0"
      "msg = timeoutMessage hash"
    by auto
  show "msg = ''Attestation timeout. The transaction may need more confirmations. '' @
            ''Try checking https://iris-api-sandbox.circle.com/v1/attestations/'' @ hash @
            '' directly.''"
    using at(3) by (simp add: timeoutMessage_def)
  have "\<forall>j\<le>n. attemptAt iris j = Some Continue"
  proof (intro allI impI)
    fix j assume "j \<le> n"
    then consider "j = n" | "j < n" by force
    then show "attemptAt iris j = Some Continue" using at(1) before by cases auto
  qed
  moreover have "\<forall>j<n. now (2 * j + 2) - now 0 \<le> 180000"
    using before by (simp add: timeout_def)
  moreover have "180000 < now (2 * n + 2) - now 0"
    using at(2) by (simp add: timeout_def)
  ultimately show "\<exists>n. 180000 < now (2 * n + 2) - now 0 \<and>
           (\<forall>j\<le>n. attemptAt iris j = Some Continue) \<and>
           (\<forall>j<n. now (2 * j + 2) - now 0 \<le> 180000)"
    by blast
next
  assume a: "(\<forall>j\<le>m. attemptAt iris j = Some Continue) \<and>
    (\<forall>j<m. now (2 * j + 2) - now 0 \<le> 180000) \<and>
    180000 < now (2 * m + 2) - now 0"
  have "pollLoop hash iris now 0 = Some (Thrown (timeoutMessage hash))"
  proof (rule pollLoop_throws[where n = m])
    show "attemptAt iris j = Some Continue" if "j \<le> m" for j using a that by simp
    show "now (2 * j + 2) - now 0 \<le> timeout" if "j < m" for j
      using a that by (simp add: timeout_def)
    show "timeout < now (2 * m + 2) - now 0" using a by (simp add: timeout_def)
  qed
  then show "pollAttestation hash iris now = Some (Thrown (timeoutMessage hash))"
    by (simp add: pollAttestation_def)
qed

theorem pollAttestation_timeout_witness:
  "pollAttestation ''0xabc'' pendingRemote steadyClock =
     Some (Thrown (''Attestation timeout. The transaction may need more confirmations. '' @
                   ''Try checking https://iris-api-sandbox.circle.com/v1/attestations/0xabc directly.'')) \<and>
   steadyClock 122 - steadyClock 0 = 183000 \<and>
   steadyClock 120 - steadyClock 0 = 180000 \<and>
   (\<exists>n. 180000 < steadyClock (2 * n + 2) - steadyClock 0 \<and>
        (\<forall>j\<le>n. attemptAt pendingRemote j = Some Continue) \<and>
        (\<forall>j<n. steadyClock (2 * j + 2) - steadyClock 0 \<le> 180000))"
proof -
  have c: "\<forall>j\<le>60. attemptAt pendingRemote j = Some Continue"
    by (simp add: attemptAt_def pendingRemote_def pendingBody_def pollAttempt_def pollTry_def)
  have b: "\<forall>j<60. steadyClock (2 * j + 2) - steadyClock 0 \<le> 180000"
    by (simp add: steadyClock_def)
  have e: "180000 < steadyClock (2 * 60 + 2) - steadyClock 0"
    by (simp add: steadyClock_def)
  note t = pollAttestation_timeout[of "''0xabc''" pendingRemote steadyClock
      "timeoutMessage ''0xabc''" 60]
  from t c b e have 1: "pollAttestation ''0xabc'' pendingRemote steadyClock =
      Some (Thrown (timeoutMessage ''0xabc''))"
    by blast
  with t have 2: "\<exists>n. 180000 < steadyClock (2 * n + 2) - steadyClock 0 \<and>
        (\<forall>j\<le>n. attemptAt pendingRemote j = Some Continue) \<and>
        (\<forall>j<n. steadyClock (2 * j + 2) - steadyClock 0 \<le> 180000)"
    by blast
  have 3: "steadyClock 122 - steadyClock 0 = 183000" "steadyClock 120 - steadyClock 0 = 180000"
    by (simp_all add: steadyClock_def)
  from 1 2 3 show ?thesis by (simp add: timeoutMessage_def)
qed

text \<open>
  C4. Transient errors never end the poll, however many there are and wherever they fall
  among the polls. When each of the first \<open>n\<close> attempts is a network failure, a
  non-success response or a malformed body, or a poll that sees no ready attestation, and
  the deadline has not passed at their checks, then the outcome is decided by attempt
  \<open>n\<close> alone: a ready attestation there is returned, and a further failure or unready
  poll there whose check reads more than 180000 ms throws the timeout error. Nothing
  depends on how many of the attempts before were errors.
\<close>

theorem pollAttestation_tolerates_transient_errors:
  assumes "\<forall>k<n. \<exists>r. iris k = Some r \<and> (transient r \<or> pollAttempt r = Continue)"
    and "\<forall>k<n. now (2 * k + 2) - now 0 \<le> 180000"
  shows "(iris n = Some (Response True code (Parsed json)) \<and>
          getProp json ''status'' = Inr json_status \<and>
          \<not> (truthy json_status \<and> toStringThrows json_status) \<and>
          getProp json ''attestation'' = Inr attestation \<and>
          truthy attestation \<and> attestation \<noteq> JStr ''PENDING'' \<and> attestation \<noteq> JStr ''pending''
            \<longrightarrow> pollAttestation hash iris now = Some (Returned json)) \<and>
         ((\<exists>r. iris n = Some r \<and> (transient r \<or> pollAttempt r = Continue)) \<and>
          180000 < now (2 * n + 2) - now 0
            \<longrightarrow> pollAttestation hash iris now = Some (Thrown (timeoutMessage hash)))"
proof -
  have through: "attemptAt iris k = Some Continue"
    if "\<exists>r. iris k = Some r \<and> (transient r \<or> pollAttempt r = Continue)" for k
    using that by (auto simp: attemptAt_def pollAttempt_transient)
  have before: "attemptAt iris k = Some Continue" if "k < n" for k
    using assms(1) that by (intro through) simp
  have within: "now (2 * k + 2) - now 0 \<le> timeout" if "k < n" for k
    using assms(2) that by (simp add: timeout_def)
  show ?thesis
  proof (intro conjI impI)
    assume a: "iris n = Some (Response True code (Parsed json)) \<and>
          getProp json ''status'' = Inr json_status \<and>
          \<not> (truthy json_status \<and> toStringThrows json_status) \<and>
          getProp json ''attestation'' = Inr attestation \<and>
          truthy attestation \<and> attestation \<noteq> JStr ''PENDING'' \<and> attestation \<noteq> JStr ''pending''"
    then have "pollAttempt (Response True code (Parsed json)) = Return json"
      by (intro pollAttempt_ready[of json json_status attestation]) simp_all
    with a have "attemptAt iris n = Some (Return json)"
      by (simp add: attemptAt_def)
    with before within have "pollLoop hash iris now 0 = Some (Returned json)"
      by (rule pollLoop_returns)
    then show "pollAttestation hash iris now = Some (Returned json)"
      by (simp add: pollAttestation_def)
  next
    assume a: "(\<exists>r. iris n = Some r \<and> (transient r \<or> pollAttempt r = Continue)) \<and>
          180000 < now (2 * n + 2) - now 0"
    have "pollLoop hash iris now 0 = Some (Thrown (timeoutMessage hash))"
    proof (rule pollLoop_throws[where n = n])
      fix j assume "j \<le> n"
      then consider "j = n" | "j < n" by force
      then show "attemptAt iris j = Some Continue"
        using a before through[of n] by cases auto
    next
      show "now (2 * j + 2) - now 0 \<le> timeout" if "j < n" for j
        using that by (rule within)
      show "timeout < now (2 * n + 2) - now 0"
        using a by (simp add: timeout_def)
    qed
    then show "pollAttestation hash iris now = Some (Thrown (timeoutMessage hash))"
      by (simp add: pollAttestation_def)
  qed
qed

theorem pollAttestation_tolerates_transient_errors_witness:
  "length flakyAnswers = 7 \<and>
   length (filter transient flakyAnswers) = 5 \<and>
   pollAttestation ''0xabc'' flakyRemote steadyClock = Some (Returned signedBody) \<and>
   transient (Rejected (FetchError ''connect ECONNREFUSED'')) \<and>
   pollAttestation ''0xabc'' deadRemote steadyClock = Some (Thrown (timeoutMessage ''0xabc''))"
proof -
  have t: "transient (Rejected (FetchError ''connect ECONNREFUSED''))"
    by (simp add: transient_def)
  have l: "length flakyAnswers = 7" "length (filter transient flakyAnswers) = 5"
    by (simp_all add: flakyAnswers_def transient_def)
  have "list_all (\<lambda>r. transient r \<or> pollAttempt r = Continue) flakyAnswers"
    by (simp add: flakyAnswers_def transient_def pendingBody_def pollAttempt_def pollTry_def)
  then have "\<forall>k<7. transient (flakyAnswers ! k) \<or> pollAttempt (flakyAnswers ! k) = Continue"
    by (simp add: list_all_length l)
  then have h1: "\<forall>k<7. \<exists>r. flakyRemote k = Some r \<and> (transient r \<or> pollAttempt r = Continue)"
    by (simp add: flakyRemote_def l)
  have h2: "\<forall>k<7. steadyClock (2 * k + 2) - steadyClock 0 \<le> 180000"
    by (simp add: steadyClock_def)
  have r: "flakyRemote 7 = Some (Response True 200 (Parsed signedBody)) \<and>
      getProp signedBody ''status'' = Inr (JStr ''complete'') \<and>
      \<not> (truthy (JStr ''complete'') \<and> toStringThrows (JStr ''complete'')) \<and>
      getProp signedBody ''attestation'' = Inr (JStr ''0x5e7a'') \<and>
      truthy (JStr ''0x5e7a'') \<and> JStr ''0x5e7a'' \<noteq> JStr ''PENDING'' \<and>
      JStr ''0x5e7a'' \<noteq> JStr ''pending''"
    by (simp add: flakyRemote_def l signedBody_def)
  from pollAttestation_tolerates_transient_errors[OF h1 h2, of 200 signedBody
      "JStr ''complete''" "JStr ''0x5e7a''" "''0xabc''"] r
  have 1: "pollAttestation ''0xabc'' flakyRemote steadyClock = Some (Returned signedBody)"
    by blast
  have d1: "\<forall>k<60. \<exists>r. deadRemote k = Some r \<and> (transient r \<or> pollAttempt r = Continue)"
    by (simp add: deadRemote_def t)
  have d2: "\<forall>k<60. steadyClock (2 * k + 2) - steadyClock 0 \<le> 180000"
    by (simp add: steadyClock_def)
  have d3: "(\<exists>r. deadRemote 60 = Some r \<and> (transient r \<or> pollAttempt r = Continue)) \<and>
      180000 < steadyClock (2 * 60 + 2) - steadyClock 0"
    by (simp add: deadRemote_def t steadyClock_def)
  from pollAttestation_tolerates_transient_errors[OF d1 d2, of _ _ _ _ "''0xabc''"] d3
  have 2: "pollAttestation ''0xabc'' deadRemote steadyClock = Some (Thrown (timeoutMessage ''0xabc''))"
    by blast
  from l 1 t 2 show ?thesis by simp
qed




section \<open>Properties of the faucet automation\<close>

subsection \<open>What one claim and one chain do\<close>

lemma getProp_cases:
  "(v = JNull \<or> v = JUndefined) \<and> (\<exists>e. getProp v p = Inl e) \<or>
   v \<noteq> JNull \<and> v \<noteq> JUndefined \<and> (\<exists>x. getProp v p = Inr x)"
  by (cases v) simp_all

lemma toStringThrows_jsOr:
  "toStringThrows (jsOr v (JStr d)) = toStringThrows v"
  by (cases v) (simp_all add: jsOr_def)

lemma lookupChain_Profile:
  "map_of CHAINS chain = Some cfg \<Longrightarrow> lookupChain chain = Profile cfg"
  by (simp add: lookupChain_def)

text \<open>One call issues one request, whatever comes of it.\<close>

lemma claimUSDC_one_post:
  assumes "map_of CHAINS chain = Some cfg"
  shows "\<exists>c evs. claimUSDC net w chain s =
           (c, s\<lparr>calls := Suc (calls s),
                  trace := trace s @ Post w (Some (chainId cfg)) (Some (token cfg)) # evs\<rparr>) \<and>
           filter isPost evs = []"
proof -
  have l: "lookupChain chain = Profile cfg"
    using assms by (rule lookupChain_Profile)
  show ?thesis
    by (auto simp: claimUSDC_def claimTry_def fetchPost_def emit_def l
             split: option.splits fetch_result.splits body.splits sum.splits)
qed

lemma claimUSDC_suspended:
  assumes "map_of CHAINS chain = Some cfg" and "net (calls s) = None"
  shows "claimUSDC net w chain s =
           (Suspended, s\<lparr>calls := Suc (calls s),
                          trace := trace s @ [Post w (Some (chainId cfg)) (Some (token cfg))]\<rparr>)"
  using assms(2)
  by (simp add: claimUSDC_def claimTry_def fetchPost_def lookupChain_Profile[OF assms(1)])

lemma claimUSDC_configured:
  assumes "map_of CHAINS chain = Some cfg" and "net (calls s) = Some r"
  shows "\<exists>result l. claimUSDC net w chain s =
           (Done result, s\<lparr>calls := Suc (calls s),
                          trace := trace s @
                            [Post w (Some (chainId cfg)) (Some (token cfg)), Log l]\<rparr>) \<and>
           success result = accepted r"
proof -
  note l = lookupChain_Profile[OF assms(1)]
  show ?thesis
  proof (cases r)
    case (Rejected e)
    with assms(2) show ?thesis
      by (fastforce simp: claimUSDC_def claimTry_def fetchPost_def emit_def accepted_def l)
  next
    case (Response response_ok response_status response_body)
    show ?thesis
    proof (cases response_body)
      case (Malformed e)
      with assms(2) Response show ?thesis
        by (fastforce simp: claimUSDC_def claimTry_def fetchPost_def emit_def accepted_def l)
    next
      case (Parsed result)
      from getProp_cases[of result "''message''"] getProp_cases[of result "''error''"]
      show ?thesis
        using assms(2) Response Parsed
        by (cases response_ok)
           (fastforce simp: claimUSDC_def claimTry_def fetchPost_def emit_def accepted_def l
              toStringThrows_jsOr)+
    qed
  qed
qed

text \<open>
  A key that \<^verbatim>\<open>CHAINS\<close> inherits is not a chain, but the lookup finds a value for it: the
  call goes through, with a request body that holds the address only.
\<close>

lemma claimUSDC_inherited_key:
  "claimUSDC alwaysOk ''0xA1'' ''toString'' world0 =
     (Done \<lparr>success = True, message = JStr ''claimed'', error = JUndefined\<rparr>,
      \<lparr>calls = 1, trace = [Post ''0xA1'' None None, Log (LogSuccess ''0xA1'' ''toString'')]\<rparr>)"
  by (simp add: claimUSDC_def claimTry_def fetchPost_def emit_def lookupChain_def jsOr_def
        CHAINS_def objectPrototypeKeys_def alwaysOk_def faucetOk_def world0_def)

lemma claimWallets_configured:
  assumes "map_of CHAINS chain = Some cfg"
  shows "length answers = length ws \<Longrightarrow>
         (\<And>i. i < length ws \<Longrightarrow> net (calls s + i) = Some (answers ! i)) \<Longrightarrow>
         \<exists>new evs. claimWallets net chain ws results s =
           (Done (results @ new), s\<lparr>calls := calls s + length ws, trace := trace s @ evs\<rparr>) \<and>
           map wallet new = ws \<and>
           map success new = map accepted answers \<and>
           filter isPost evs = postsFor cfg ws"
proof (induction ws arbitrary: answers results s)
  case Nil
  then show ?case by (auto simp: postsFor_def intro!: exI[of _ "[]"])
next
  case (Cons w ws)
  from Cons.prems(1) obtain a as where answers: "answers = a # as" "length as = length ws"
    by (cases answers) auto
  have first: "net (calls s) = Some a"
    using Cons.prems(2)[of 0] answers by simp
  from claimUSDC_configured[where net = net and s = s and r = a and w = w, OF assms first]
  obtain result l where
    c: "claimUSDC net w chain s =
          (Done result, s\<lparr>calls := Suc (calls s),
                         trace := trace s @
                           [Post w (Some (chainId cfg)) (Some (token cfg)), Log l]\<rparr>)"
    and ok: "success result = accepted a"
    by blast
  define s1 where "s1 = emit (Delay 2000) (s\<lparr>calls := Suc (calls s),
                         trace := trace s @
                           [Post w (Some (chainId cfg)) (Some (token cfg)), Log l]\<rparr>)"
  define entry :: claim_entry where "entry = \<lparr>success = success result, message = message result,
                          error = error result, wallet = w\<rparr>"
  have s1c: "calls s1 = Suc (calls s)"
    and s1t: "trace s1 = trace s @
                [Post w (Some (chainId cfg)) (Some (token cfg)), Log l, Delay 2000]"
    by (simp_all add: s1_def emit_def)
  have rest: "net (calls s1 + i) = Some (as ! i)" if "i < length ws" for i
    using Cons.prems(2)[of "Suc i"] that answers by (simp add: s1c)
  from Cons.IH[OF answers(2) rest, of "results @ [entry]"] obtain new evs where
    r: "claimWallets net chain ws (results @ [entry]) s1 =
           (Done ((results @ [entry]) @ new),
            s1\<lparr>calls := calls s1 + length ws, trace := trace s1 @ evs\<rparr>)"
    and w: "map wallet new = ws"
    and su: "map success new = map accepted as"
    and p: "filter isPost evs = postsFor cfg ws"
    by blast
  have step: "claimWallets net chain (w # ws) results s =
      claimWallets net chain ws (results @ [entry]) s1"
    by (simp add: c s1_def entry_def)
  let ?evs = "[Post w (Some (chainId cfg)) (Some (token cfg)), Log l, Delay 2000] @ evs"
  have 1: "claimWallets net chain (w # ws) results s =
      (Done (results @ (entry # new)),
       s\<lparr>calls := calls s + length (w # ws), trace := trace s @ ?evs\<rparr>)"
    unfolding step r by (simp add: s1c s1t s1_def emit_def)
  have 2: "map wallet (entry # new) = w # ws"
    using w by (simp add: entry_def)
  have 3: "map success (entry # new) = map accepted answers"
    using su ok answers by (simp add: entry_def)
  have 4: "filter isPost ?evs = postsFor cfg (w # ws)"
    using p by (simp add: postsFor_def)
  show ?case
    by (rule exI[of _ "entry # new"], rule exI[of _ ?evs]) (intro conjI 1 2 3 4)
qed

lemma processChain_skips:
  assumes "map_of CHAINS chain = Some cfg" and "walletList wallets = []"
  shows "processChain net chain wallets s = (Done None, s)"
  using assms(2)
  by (cases wallets)
     (simp_all add: processChain_def walletList_def lookupChain_Profile[OF assms(1)])

lemma processChain_configured:
  assumes "map_of CHAINS chain = Some cfg" and "ws \<noteq> []"
    and "length answers = length ws"
    and "\<And>i. i < length ws \<Longrightarrow> net (calls s + i) = Some (answers ! i)"
  shows "\<exists>results evs. processChain net chain (Some ws) s =
           (Done (Some results),
            s\<lparr>calls := calls s + length ws,
              trace := trace s @ evs @
                [Log (LogSummary (name cfg) (length (filter success results))
                        (length (filter (\<lambda>r. \<not> success r) results)))]\<rparr>) \<and>
           map wallet results = ws \<and>
           map success results = map accepted answers \<and>
           filter isPost evs = postsFor cfg ws"
proof -
  from claimWallets_configured[OF assms(1,3,4), of "[]"] obtain new evs where
    c: "claimWallets net chain ws [] s =
           (Done new, s\<lparr>calls := calls s + length ws, trace := trace s @ evs\<rparr>)"
    and r: "map wallet new = ws" "map success new = map accepted answers"
       "filter isPost evs = postsFor cfg ws"
    by auto
  have "processChain net chain (Some ws) s =
           (Done (Some new),
            s\<lparr>calls := calls s + length ws,
              trace := trace s @ evs @
                [Log (LogSummary (name cfg) (length (filter success new))
                        (length (filter (\<lambda>r. \<not> success r) new)))]\<rparr>)"
    using assms(2) c
    by (simp add: processChain_def emit_def lookupChain_Profile[OF assms(1)])
  then show ?thesis
    by (rule_tac x = new in exI, rule_tac x = evs in exI) (intro conjI r)
qed

lemma settled_answers:
  assumes "\<And>i. net i \<noteq> None"
  shows "\<exists>answers. length answers = n \<and> (\<forall>i<n. net (k + i) = Some (answers ! i))"
proof -
  let ?answers = "map (\<lambda>i. the (net (k + i))) [0..<n]"
  have "net (k + i) = Some (?answers ! i)" if "i < n" for i
    using assms[of "k + i"] that by auto
  then show ?thesis by (intro exI[of _ ?answers]) simp
qed

lemma processChain_posts:
  assumes "map_of CHAINS chain = Some cfg" and "\<And>i. net i \<noteq> None"
  shows "\<exists>results s'. processChain net chain wallets s = (Done results, s') \<and>
           filter isPost (trace s') = filter isPost (trace s) @ postsFor cfg (walletList wallets)"
proof (cases "walletList wallets = []")
  case True
  show ?thesis
    by (simp add: processChain_skips[OF assms(1) True] True postsFor_def)
next
  case False
  then obtain ws where ws: "wallets = Some ws" "ws \<noteq> []"
    by (cases wallets) (auto simp: walletList_def)
  from settled_answers[of net "length ws" "calls s"] assms(2) obtain answers where
    a: "length answers = length ws" "\<And>i. i < length ws \<Longrightarrow> net (calls s + i) = Some (answers ! i)"
    by blast
  from processChain_configured[OF assms(1) ws(2) a] ws show ?thesis
    by (auto simp: walletList_def)
qed

lemma processChains_posts:
  assumes "\<And>c cfg. (c, cfg) \<in> set pcs \<Longrightarrow> map_of CHAINS c = Some cfg"
    and "\<And>i. net i \<noteq> None"
  shows "\<exists>allResults' s'. processChains net wallets (map fst pcs) allResults s = (Done allResults', s') \<and>
           filter isPost (trace s') =
             filter isPost (trace s) @
             concat (map (\<lambda>(c, cfg). postsFor cfg (walletList (wallets c))) pcs)"
  using assms(1)
proof (induction pcs arbitrary: allResults s)
  case Nil
  show ?case by simp
next
  case (Cons pc pcs)
  obtain c cfg where pc: "pc = (c, cfg)" by (cases pc)
  have cfg: "map_of CHAINS c = Some cfg" using Cons.prems[of c cfg] pc by simp
  from processChain_posts[where net = net and wallets = "wallets c" and s = s, OF cfg assms(2)]
  obtain results s1 where
    1: "processChain net c (wallets c) s = (Done results, s1)"
    and 2: "filter isPost (trace s1) = filter isPost (trace s) @ postsFor cfg (walletList (wallets c))"
    by blast
  from Cons.IH[of "allResults @ [(c, results)]" s1] Cons.prems obtain allResults' s' where
    3: "processChains net wallets (map fst pcs) (allResults @ [(c, results)]) s1 = (Done allResults', s')"
    and 4: "filter isPost (trace s') =
             filter isPost (trace s1) @
             concat (map (\<lambda>(c, cfg). postsFor cfg (walletList (wallets c))) pcs)"
    by auto
  from 1 3 have "processChains net wallets (map fst (pc # pcs)) allResults s = (Done allResults', s')"
    by (simp add: pc)
  moreover from 2 4 have "filter isPost (trace s') =
             filter isPost (trace s) @
             concat (map (\<lambda>(c, cfg). postsFor cfg (walletList (wallets c))) (pc # pcs))"
    by (simp add: pc)
  ultimately show ?case by blast
qed

lemma CHAINS_lookup: "(c, cfg) \<in> set CHAINS \<Longrightarrow> map_of CHAINS c = Some cfg"
  by (auto simp: CHAINS_def)

lemma runFaucet_posts:
  assumes "\<And>i. net i \<noteq> None"
  shows "\<exists>e s'. runFaucet net (Inr wallets) s = (e, s') \<and> e \<noteq> NeverEnds \<and>
     filter isPost (trace s') =
       filter isPost (trace s) @
       concat (map (\<lambda>(c, cfg). postsFor cfg (walletList (wallets c))) CHAINS)"
proof -
  from processChains_posts[of CHAINS net wallets "[]" s] CHAINS_lookup assms
  obtain allResults s1 where
    1: "processChains net wallets (map fst CHAINS) [] s = (Done allResults, s1)"
    and 2: "filter isPost (trace s1) =
             filter isPost (trace s) @
             concat (map (\<lambda>(c, cfg). postsFor cfg (walletList (wallets c))) CHAINS)"
    by blast
  show ?thesis
  proof (cases "totalStats (map snd allResults) 0 0")
    case (Inl e)
    with 1 2 show ?thesis by (simp add: runFaucet_def runTry_def emit_def)
  next
    case (Inr t)
    with 1 2 show ?thesis
      by (cases t) (simp add: runFaucet_def runTry_def emit_def)
  qed
qed

lemma count_by_map:
  "length (filter P xs) = length (filter (\<lambda>b. b) (map P xs))"
  "length (filter (\<lambda>x. \<not> P x) xs) = length (filter (\<lambda>b. \<not> b) (map P xs))"
  by (induction xs) simp_all

subsection \<open>The claims about the faucet automation\<close>

text \<open>
  C5, as stated, fails for faucet-automation.js: when loading the wallets throws, its
  runFaucet catches the exception, logs it and returns normally, so the caller's promise
  resolves and nothing reaches the caller or ends the process.
\<close>

theorem runFaucet_sched_load_error_counterexample:
  "runFaucet_sched alwaysOk (Inl (SyntaxError ''Unexpected end of JSON input'')) world0 =
     (Resolved,
      \<lparr>calls = 0,
       trace = [Log (LogFatal ''Unexpected end of JSON input''), Log LogCycleCompleted]\<rparr>)"
  by (simp add: runFaucet_sched_def runTry_sched_def emit_def world0_def)

text \<open>
  C5 (amended). When loading the wallet configuration throws, a run issues no claim
  request and reports the exception once, as a fatal error of the run, not per wallet. The
  one-shot variant then ends the process with exit status 1; faucet-automation.js logs
  the completed cycle and returns normally to its caller.
\<close>

theorem runFaucet_load_error:
  "runFaucet net (Inl e) s = (Exited 1, s\<lparr>trace := trace s @ [Log (LogFatal (err_message e))]\<rparr>) \<and>
   runFaucet_sched net (Inl e) s =
     (Resolved, s\<lparr>trace := trace s @ [Log (LogFatal (err_message e)), Log LogCycleCompleted]\<rparr>) \<and>
   filter isPost (trace (snd (runFaucet net (Inl e) s))) = filter isPost (trace s) \<and>
   filter isPost (trace (snd (runFaucet_sched net (Inl e) s))) = filter isPost (trace s)"
  by (simp add: runFaucet_def runTry_def runFaucet_sched_def runTry_sched_def emit_def)

theorem runFaucet_load_error_witness:
  "runFaucet alwaysOk (Inl (SyntaxError ''Unexpected end of JSON input'')) world0 =
     (Exited 1, \<lparr>calls = 0, trace = [Log (LogFatal ''Unexpected end of JSON input'')]\<rparr>) \<and>
   fst (runFaucet_sched alwaysOk (Inl (SyntaxError ''Unexpected end of JSON input'')) world0) =
     Resolved \<and>
   filter isPost (trace (snd (runFaucet alwaysOk
     (Inl (SyntaxError ''Unexpected end of JSON input'')) world0))) = [] \<and>
   filter isPost (trace (snd (runFaucet_sched alwaysOk
     (Inl (SyntaxError ''Unexpected end of JSON input'')) world0))) = []"
  using runFaucet_load_error[of alwaysOk "SyntaxError ''Unexpected end of JSON input''" world0]
  by (simp add: world0_def)

text \<open>
  C6 (code defect). The claim: a chain with an empty or absent wallet list is skipped
  with a summary of 0 successes and 0 failures and without an error. The code evaluated:
  processChain issues no request and records nothing, but it returns \<^verbatim>\<open>undefined\<close> and
  logs no summary; in a run where one chain has an empty list and every claim succeeds,
  the totals loop then throws on that \<^verbatim>\<open>undefined\<close>, and the run ends as a fatal error
  with exit status 1.
\<close>

theorem processChain_empty_breaks_run:
  "processChain alwaysOk ''ethereum_sepolia'' (Some []) world0 = (Done None, world0) \<and>
   processChain alwaysOk ''ethereum_sepolia'' None world0 = (Done None, world0) \<and>
   runFaucet alwaysOk (Inr oneEmptyChain) world0 =
     (Exited 1,
      \<lparr>calls = 2,
       trace =
         [Post ''0xA1'' (Some ''43113'') (Some ''USDC''),
          Log (LogSuccess ''0xA1'' ''Avalanche Fuji Testnet''),
          Delay 2000,
          Log (LogSummary ''Avalanche Fuji Testnet'' 1 0),
          Post ''0xC3'' (Some ''84532'') (Some ''USDC''),
          Log (LogSuccess ''0xC3'' ''Base Sepolia Testnet''),
          Delay 2000,
          Log (LogSummary ''Base Sepolia Testnet'' 1 0),
          Log (LogFatal ''Cannot read properties of undefined (reading filter)'')]\<rparr>)"
  by (simp add: runFaucet_def runTry_def processChain_def claimUSDC_def claimTry_def
        fetchPost_def emit_def lookupChain_def jsOr_def CHAINS_def oneEmptyChain_def
        alwaysOk_def faucetOk_def world0_def)

text \<open>
  C7. For a configured chain and a non-empty wallet list whose requests are all answered,
  processChain issues exactly one claim request per wallet, in list order, records one
  outcome per wallet in the same order, and its summary counts the outcomes that succeeded
  and those that failed: as many as there are accepted and not accepted claims. The
  instance with three wallets of which the second is rejected gives 2 successes,
  1 failure and three requests in list order.
\<close>

theorem processChain_one_claim_per_wallet:
  assumes "map_of CHAINS chain = Some cfg" and "ws \<noteq> []"
    and "length answers = length ws"
    and "\<forall>i<length ws. net (calls s + i) = Some (answers ! i)"
  shows "\<exists>results evs.
           processChain net chain (Some ws) s =
             (Done (Some results),
              s\<lparr>calls := calls s + length ws,
                trace := trace s @ evs @
                  [Log (LogSummary (name cfg) (length (filter success results))
                          (length (filter (\<lambda>r. \<not> success r) results)))]\<rparr>) \<and>
           filter isPost evs = map (\<lambda>w. Post w (Some (chainId cfg)) (Some (token cfg))) ws \<and>
           map wallet results = ws \<and>
           map success results = map accepted answers \<and>
           length (filter success results) = length (filter accepted answers) \<and>
           length (filter (\<lambda>r. \<not> success r) results) =
             length (filter (\<lambda>a. \<not> accepted a) answers)"
proof -
  have settled: "net (calls s + i) = Some (answers ! i)" if "i < length ws" for i
    using assms(4) that by simp
  from processChain_configured[where net = net and s = s, OF assms(1,2,3) settled]
  obtain results evs where
    p: "processChain net chain (Some ws) s =
             (Done (Some results),
              s\<lparr>calls := calls s + length ws,
                trace := trace s @ evs @
                  [Log (LogSummary (name cfg) (length (filter success results))
                          (length (filter (\<lambda>r. \<not> success r) results)))]\<rparr>)"
    and w: "map wallet results = ws"
    and m: "map success results = map accepted answers"
    and f: "filter isPost evs = map (\<lambda>w. Post w (Some (chainId cfg)) (Some (token cfg))) ws"
    by (auto simp: postsFor_def)
  have a: "length (filter success results) = length (filter accepted answers)"
    by (simp only: count_by_map(1)[of success results] m
          count_by_map(1)[of accepted answers, symmetric])
  have b: "length (filter (\<lambda>r. \<not> success r) results) =
             length (filter (\<lambda>a. \<not> accepted a) answers)"
    by (simp only: count_by_map(2)[of success results] m
          count_by_map(2)[of accepted answers, symmetric])
  show ?thesis
    by (rule exI[of _ results], rule exI[of _ evs]) (intro conjI p f w m a b)
qed

theorem processChain_one_claim_per_wallet_witness:
  "\<exists>results evs.
     processChain secondFails ''base_sepolia'' (Some threeWallets) world0 =
       (Done (Some results),
        \<lparr>calls = 3, trace = evs @ [Log (LogSummary ''Base Sepolia Testnet'' 2 1)]\<rparr>) \<and>
     filter isPost evs =
       [Post ''0xA1'' (Some ''84532'') (Some ''USDC''),
        Post ''0xB2'' (Some ''84532'') (Some ''USDC''),
        Post ''0xC3'' (Some ''84532'') (Some ''USDC'')] \<and>
     map wallet results = [''0xA1'', ''0xB2'', ''0xC3''] \<and>
     map success results = [True, False, True]"
proof -
  let ?cfg = "\<lparr>name = ''Base Sepolia Testnet'', chainId = ''84532'', token = ''USDC''\<rparr>"
  let ?answers = "[faucetOk, faucetRejects, faucetOk]"
  have c: "map_of CHAINS ''base_sepolia'' = Some ?cfg"
    by (simp add: CHAINS_def)
  have n: "threeWallets \<noteq> []"
    by (simp add: threeWallets_def)
  have l: "length threeWallets = 3"
    by (simp add: threeWallets_def)
  have la: "length ?answers = length threeWallets"
    by (simp add: l)
  have "secondFails (calls world0 + i) = Some (?answers ! i)" if "i < 3" for i
  proof -
    from that consider "i = 0" | "i = 1" | "i = 2" by linarith
    then show ?thesis by cases (simp_all add: secondFails_def world0_def)
  qed
  then have h: "\<forall>i<length threeWallets. secondFails (calls world0 + i) = Some (?answers ! i)"
    by (simp add: l)
  have ms: "map accepted ?answers = [True, False, True]"
    by (simp add: accepted_def faucetOk_def faucetRejects_def)
  have fs: "length (filter accepted ?answers) = 2"
    by (simp add: accepted_def faucetOk_def faucetRejects_def)
  have ff: "length (filter (\<lambda>a. \<not> accepted a) ?answers) = 1"
    by (simp add: accepted_def faucetOk_def faucetRejects_def)
  from processChain_one_claim_per_wallet[OF c n la h, unfolded l ms fs ff]
  obtain results evs where
    p: "processChain secondFails ''base_sepolia'' (Some threeWallets) world0 =
         (Done (Some results),
          world0\<lparr>calls := calls world0 + 3,
            trace := trace world0 @ evs @
              [Log (LogSummary (name ?cfg) (length (filter success results))
                      (length (filter (\<lambda>r. \<not> success r) results)))]\<rparr>)"
    and f: "filter isPost evs =
              map (\<lambda>w. Post w (Some (chainId ?cfg)) (Some (token ?cfg))) threeWallets"
    and w: "map wallet results = threeWallets"
    and m: "map success results = [True, False, True]"
    and a: "length (filter success results) = 2"
    and b: "length (filter (\<lambda>r. \<not> success r) results) = 1"
    by (elim exE conjE)
  have 1: "processChain secondFails ''base_sepolia'' (Some threeWallets) world0 =
       (Done (Some results),
        \<lparr>calls = 3, trace = evs @ [Log (LogSummary ''Base Sepolia Testnet'' 2 1)]\<rparr>)"
    using p by (simp add: a b world0_def)
  have 2: "filter isPost evs =
       [Post ''0xA1'' (Some ''84532'') (Some ''USDC''),
        Post ''0xB2'' (Some ''84532'') (Some ''USDC''),
        Post ''0xC3'' (Some ''84532'') (Some ''USDC'')]"
    using f by (simp add: threeWallets_def)
  have 3: "map wallet results = [''0xA1'', ''0xB2'', ''0xC3'']"
    using w by (simp add: threeWallets_def)
  show ?thesis
    by (rule exI[of _ results], rule exI[of _ evs]) (intro conjI 1 2 3 m)
qed

text \<open>
  C8. For a chain that has a profile, one invocation of claimUSDC issues exactly one
  POST request and never a second one, whatever comes of it. When the request is
  answered, the call returns an outcome whose \<open>success\<close> tells whether the faucet accepted
  that one request: a network error and a rejection (a response that is not ok) both give
  \<open>success = False\<close>, an ok response with a text message gives \<open>success = True\<close>. No
  outcome stops the run: whatever the faucet answers, a run issues the requests of every
  wallet of every chain, in order.
\<close>

theorem claimUSDC_one_request:
  assumes "map_of CHAINS chain = Some cfg"
  shows "(\<exists>c evs.
            claimUSDC net walletAddress chain s =
              (c, s\<lparr>calls := Suc (calls s),
                     trace := trace s @
                       Post walletAddress (Some (chainId cfg)) (Some (token cfg)) # evs\<rparr>) \<and>
            filter isPost evs = []) \<and>
         (net (calls s) = Some r \<longrightarrow>
            (\<exists>result l.
               claimUSDC net walletAddress chain s =
                 (Done result,
                  s\<lparr>calls := Suc (calls s),
                    trace := trace s @
                      [Post walletAddress (Some (chainId cfg)) (Some (token cfg)), Log l]\<rparr>) \<and>
               success result = accepted r)) \<and>
         \<not> accepted (Rejected e) \<and>
         \<not> accepted (Response False code b) \<and>
         accepted (Response True code (Parsed (JObj [(''message'', JStr m)]))) \<and>
         ((\<forall>i. net i \<noteq> None) \<longrightarrow>
            (\<exists>r s'. runFaucet net (Inr wallets) s = (r, s') \<and> r \<noteq> NeverEnds \<and>
               filter isPost (trace s') =
                 filter isPost (trace s) @
                 concat (map (\<lambda>(c, cfg). postsFor cfg (walletList (wallets c))) CHAINS)))"
proof (intro conjI impI)
  show "\<exists>c evs.
            claimUSDC net walletAddress chain s =
              (c, s\<lparr>calls := Suc (calls s),
                     trace := trace s @
                       Post walletAddress (Some (chainId cfg)) (Some (token cfg)) # evs\<rparr>) \<and>
            filter isPost evs = []"
    using assms by (rule claimUSDC_one_post)
  show "\<exists>result l.
               claimUSDC net walletAddress chain s =
                 (Done result,
                  s\<lparr>calls := Suc (calls s),
                    trace := trace s @
                      [Post walletAddress (Some (chainId cfg)) (Some (token cfg)), Log l]\<rparr>) \<and>
               success result = accepted r"
    if "net (calls s) = Some r"
    using assms that by (rule claimUSDC_configured)
  show "\<not> accepted (Rejected e)"
    by (simp add: accepted_def)
  show "\<not> accepted (Response False code b)"
    by (simp add: accepted_def)
  show "accepted (Response True code (Parsed (JObj [(''message'', JStr m)])))"
    by (simp add: accepted_def)
  show "\<exists>r s'. runFaucet net (Inr wallets) s = (r, s') \<and> r \<noteq> NeverEnds \<and>
               filter isPost (trace s') =
                 filter isPost (trace s) @
                 concat (map (\<lambda>(c, cfg). postsFor cfg (walletList (wallets c))) CHAINS)"
    if "\<forall>i. net i \<noteq> None"
    using that by (intro runFaucet_posts) simp
qed

theorem claimUSDC_one_request_witness:
  "(\<exists>result l.
      claimUSDC firstTwoFail ''0xA1'' ''avalanche_fuji'' world0 =
        (Done result,
         \<lparr>calls = 1, trace = [Post ''0xA1'' (Some ''43113'') (Some ''USDC''), Log l]\<rparr>) \<and>
      success result = False) \<and>
   (\<exists>result l.
      claimUSDC oddMessageNet ''0xA1'' ''avalanche_fuji'' world0 =
        (Done result,
         \<lparr>calls = 1, trace = [Post ''0xA1'' (Some ''43113'') (Some ''USDC''), Log l]\<rparr>) \<and>
      success result = False) \<and>
   (\<exists>r s'. runFaucet firstTwoFail (Inr fourWallets) world0 = (r, s') \<and> r \<noteq> NeverEnds \<and>
      filter isPost (trace s') =
        [Post ''0xA1'' (Some ''43113'') (Some ''USDC''),
         Post ''0xA2'' (Some ''43113'') (Some ''USDC''),
         Post ''0xB1'' (Some ''11155111'') (Some ''USDC''),
         Post ''0xC1'' (Some ''84532'') (Some ''USDC'')])"
proof -
  let ?cfg = "\<lparr>name = ''Avalanche Fuji Testnet'', chainId = ''43113'', token = ''USDC''\<rparr>"
  have c: "map_of CHAINS ''avalanche_fuji'' = Some ?cfg"
    by (simp add: CHAINS_def)
  have a1: "firstTwoFail (calls world0) = Some faucetRejects"
    by (simp add: firstTwoFail_def world0_def)
  have a2: "oddMessageNet (calls world0) = Some faucetOddMessage"
    by (simp add: oddMessageNet_def)
  have n1: "accepted faucetRejects = False"
    by (simp add: accepted_def faucetRejects_def)
  have n2: "accepted faucetOddMessage = False"
    by (simp add: accepted_def faucetOddMessage_def)
  have settled: "\<forall>i. firstTwoFail i \<noteq> None"
    by (simp add: firstTwoFail_def)
  have p: "concat (map (\<lambda>(c, cfg). postsFor cfg (walletList (fourWallets c))) CHAINS) =
      [Post ''0xA1'' (Some ''43113'') (Some ''USDC''),
       Post ''0xA2'' (Some ''43113'') (Some ''USDC''),
       Post ''0xB1'' (Some ''11155111'') (Some ''USDC''),
       Post ''0xC1'' (Some ''84532'') (Some ''USDC'')]"
    by (simp add: CHAINS_def postsFor_def walletList_def fourWallets_def)
  note t1 = claimUSDC_one_request[OF c, where net = firstTwoFail and s = world0
      and r = faucetRejects and walletAddress = "''0xA1''" and wallets = fourWallets]
  note t2 = claimUSDC_one_request[OF c, where net = oddMessageNet and s = world0
      and r = faucetOddMessage and walletAddress = "''0xA1''"]
  from t1 a1 have 1: "\<exists>result l.
      claimUSDC firstTwoFail ''0xA1'' ''avalanche_fuji'' world0 =
        (Done result,
         \<lparr>calls = 1, trace = [Post ''0xA1'' (Some ''43113'') (Some ''USDC''), Log l]\<rparr>) \<and>
      success result = False"
    by (simp add: n1 world0_def)
  from t2 a2 have 2: "\<exists>result l.
      claimUSDC oddMessageNet ''0xA1'' ''avalanche_fuji'' world0 =
        (Done result,
         \<lparr>calls = 1, trace = [Post ''0xA1'' (Some ''43113'') (Some ''USDC''), Log l]\<rparr>) \<and>
      success result = False"
    by (simp add: n2 world0_def)
  from t1 settled have 3: "\<exists>r s'. runFaucet firstTwoFail (Inr fourWallets) world0 = (r, s') \<and>
      r \<noteq> NeverEnds \<and>
      filter isPost (trace s') =
        [Post ''0xA1'' (Some ''43113'') (Some ''USDC''),
         Post ''0xA2'' (Some ''43113'') (Some ''USDC''),
         Post ''0xB1'' (Some ''11155111'') (Some ''USDC''),
         Post ''0xC1'' (Some ''84532'') (Some ''USDC'')]"
    by (simp add: p world0_def)
  from 1 2 3 show ?thesis by (intro conjI)
qed

text \<open>
  C10 (code defect). The claim: claimUSDC never throws, also for a chain key that is not
  configured; every internal exception comes back as \<^verbatim>\<open>{success: false, error}\<close>. The
  code evaluated at an unknown chain key: the TypeError raised in the \<^verbatim>\<open>try\<close> block is
  caught, but the \<^verbatim>\<open>catch\<close> clause reads \<^verbatim>\<open>chainConfig.name\<close> for its log line and
  throws again; the call rejects, having issued no request and logged nothing.
\<close>

theorem claimUSDC_unknown_chain_throws:
  "map_of CHAINS ''polygon_amoy'' = None \<and>
   lookupChain ''polygon_amoy'' = NoChain \<and>
   claimUSDC net walletAddress ''polygon_amoy'' s =
     (Raised (TypeError ''Cannot read properties of undefined (reading name)''), s)"
  by (simp add: claimUSDC_def claimTry_def lookupChain_def CHAINS_def objectPrototypeKeys_def)

end
